theory Spec2Isabelle
  imports Main "HOL-Library.Sublist"
begin

section \<open>Python strings as the notebook uses them\<close>

text \<open>
  The notebook \<^verbatim>\<open>nb-13.2-RAD-short.ipynb\<close> works on Python \<^verbatim>\<open>str\<close> values that hold
  DNA text. A string is a \<^typ>\<open>string\<close> here, one \<^typ>\<open>char\<close> per character; the
  texts of the program are ASCII, and a code point above 127 is outside this model.
  The exceptions that the string and arithmetic primitives can raise are values.
\<close>

datatype error = ValueError | ZeroDivisionError

text \<open>
  A slice bound \<open>i\<close> on a sequence of length \<open>n\<close>: a negative bound counts from the
  end, and every bound is clamped into \<open>0..n\<close>. Slicing never raises.
\<close>

definition slice_index :: "nat \<Rightarrow> int \<Rightarrow> nat" where
  "slice_index n i = (if i < 0 then nat (max 0 (int n + i)) else min n (nat i))"

text \<open>\<^verbatim>\<open>s[i:]\<close>, \<^verbatim>\<open>s[:j]\<close> and \<^verbatim>\<open>s[i:j]\<close>.\<close>

definition slice_from :: "'a list \<Rightarrow> int \<Rightarrow> 'a list" where
  "slice_from s i = drop (slice_index (length s) i) s"

definition slice_to :: "'a list \<Rightarrow> int \<Rightarrow> 'a list" where
  "slice_to s j = take (slice_index (length s) j) s"

definition slice :: "'a list \<Rightarrow> int \<Rightarrow> int \<Rightarrow> 'a list" where
  "slice s i j = drop (slice_index (length s) i) (take (slice_index (length s) j) s)"

text \<open>
  \<^verbatim>\<open>s.replace(old, new)\<close> for one-character \<open>old\<close> and \<open>new\<close>, the only use the
  notebook makes of it, and \<^verbatim>\<open>s.upper()\<close> on ASCII text.
\<close>

definition replace :: "char \<Rightarrow> char \<Rightarrow> string \<Rightarrow> string" where
  "replace old new s = map (\<lambda>c. if c = old then new else c) s"

definition upper_char :: "char \<Rightarrow> char" where
  "upper_char c =
     (let n = (of_char c :: nat) in if 97 \<le> n \<and> n \<le> 122 then char_of (n - 32) else c)"

definition upper :: "string \<Rightarrow> string" where
  "upper s = map upper_char s"

text \<open>
  \<^verbatim>\<open>s.split(sep)\<close>: the text is scanned from the left; at each position where \<open>sep\<close>
  starts, the piece collected so far is emitted and the scan goes on behind the
  separator. An empty separator raises \<^verbatim>\<open>ValueError\<close>.
\<close>

fun split_scan :: "string \<Rightarrow> string \<Rightarrow> string \<Rightarrow> string list" where
  "split_scan sep cur [] = [cur]"
| "split_scan sep cur (c # cs) =
     (if sep \<noteq> [] \<and> prefix sep (c # cs)
      then cur # split_scan sep [] (drop (length sep - 1) cs)
      else split_scan sep (cur @ [c]) cs)"

definition split :: "string \<Rightarrow> string \<Rightarrow> error + string list" where
  "split s sep = (if sep = [] then Inl ValueError else Inr (split_scan sep [] s))"

section \<open>The complement transform\<close>

text \<open>
  \<^verbatim>\<open>complement(sequence)\<close>: four replacements into lower case, one after the other,
  then \<^verbatim>\<open>upper()\<close>.
\<close>

definition complement :: "string \<Rightarrow> string" where
  "complement sequence =
     upper (replace CHR ''A'' CHR ''t'' (replace CHR ''T'' CHR ''a''
       (replace CHR ''G'' CHR ''c'' (replace CHR ''C'' CHR ''g'' sequence))))"

text \<open>A Sequence of the data model: text over the four bases.\<close>

definition dna :: "string \<Rightarrow> bool" where
  "dna s = list_all (\<lambda>c. c = CHR ''A'' \<or> c = CHR ''C'' \<or> c = CHR ''G'' \<or> c = CHR ''T'') s"

text \<open>The pairing of the bases, symbol by symbol.\<close>

fun base_pair :: "char \<Rightarrow> char" where
  "base_pair c =
     (if c = CHR ''A'' then CHR ''T'' else if c = CHR ''T'' then CHR ''A''
      else if c = CHR ''C'' then CHR ''G'' else if c = CHR ''G'' then CHR ''C'' else c)"

section \<open>The adapters\<close>

definition ILLUMINA_ADAPTER_1 :: string where
  "ILLUMINA_ADAPTER_1 = ''AGATCGGAAGAGCACACGTCTGAACTCCAGTCA''"

definition ILLUMINA_ADAPTER_2 :: string where
  "ILLUMINA_ADAPTER_2 = ''AGATCGGAAGAGCGTCGTGTAGGGAAAGAGTGT''"

section \<open>Restriction digest\<close>

text \<open>
  \<^verbatim>\<open>restriction_digest(sequence, recognition, cut)\<close>: split the scaffold at the
  recognition site, then put \<^verbatim>\<open>recognition[cut:]\<close> in front of and
  \<^verbatim>\<open>recognition[:cut]\<close> behind every piece. The only failure is that of
  \<^verbatim>\<open>split\<close>; the cut offset \<open>cutpos\<close> (\<^verbatim>\<open>cut\<close> in the source) is used in slices only.
\<close>

definition restriction_digest :: "string \<Rightarrow> string \<Rightarrow> int \<Rightarrow> error + string list" where
  "restriction_digest sequence recognition cutpos =
     (case split sequence recognition of
        Inl e \<Rightarrow> Inl e
      | Inr fragments \<Rightarrow>
          Inr (map (\<lambda>i. slice_from recognition cutpos @ i @ slice_to recognition cutpos) fragments))"

text \<open>
  The count the specification speaks of: the occurrences of the motif met when the text
  is read from the left and a match is skipped as a whole, so that matches do not overlap.
\<close>

fun count_matches :: "string \<Rightarrow> string \<Rightarrow> nat" where
  "count_matches motif [] = 0"
| "count_matches motif (c # cs) =
     (if motif \<noteq> [] \<and> prefix motif (c # cs)
      then Suc (count_matches motif (drop (length motif - 1) cs))
      else count_matches motif cs)"

text \<open>\<^verbatim>\<open>sep.join(pieces)\<close>, to state that a split loses nothing.\<close>

fun join :: "string \<Rightarrow> string list \<Rightarrow> string" where
  "join sep [] = []"
| "join sep [p] = p"
| "join sep (p # q # ps) = p @ sep @ join sep (q # ps)"

section \<open>Ligation of the barcoded adapter\<close>

text \<open>
  \<^verbatim>\<open>ligate_barcoded_adapters(fragments, recognition, cut, barcode)\<close>: the loop over the
  fragments, with the list \<^verbatim>\<open>ligated\<close> it appends to. \<^verbatim>\<open>x[::-1]\<close> is \<^const>\<open>rev\<close>.
\<close>

fun ligate_loop :: "string list \<Rightarrow> string \<Rightarrow> int \<Rightarrow> string \<Rightarrow> string list \<Rightarrow> string list" where
  "ligate_loop [] recognition cutpos barcode ligated = ligated"
| "ligate_loop (fragment # rest) recognition cutpos barcode ligated =
     (let ligate_to_this_strand =
            rev (complement ILLUMINA_ADAPTER_1) @ rev (complement barcode)
            @ slice recognition (- cutpos) (- (int (length recognition) - cutpos));
          ligate_to_other_strand = barcode @ ILLUMINA_ADAPTER_1;
          molecule = ligate_to_this_strand @ fragment @ ligate_to_other_strand
      in ligate_loop rest recognition cutpos barcode (ligated @ [molecule]))"

definition ligate_barcoded_adapters :: "string list \<Rightarrow> string \<Rightarrow> int \<Rightarrow> string \<Rightarrow> string list" where
  "ligate_barcoded_adapters fragments recognition cutpos barcode =
     ligate_loop fragments recognition cutpos barcode []"

text \<open>
  The molecule as the specification words it, to be compared with the one the loop builds:
  the third part is the reverse complement of the last \<open>overhang_len\<close> symbols of the
  recognition motif.
\<close>

definition claimed_molecule :: "string \<Rightarrow> nat \<Rightarrow> string \<Rightarrow> string \<Rightarrow> string" where
  "claimed_molecule recognition overhang_len barcode fragment =
     rev (complement ILLUMINA_ADAPTER_1) @ rev (complement barcode)
     @ rev (complement (drop (length recognition - overhang_len) recognition))
     @ fragment @ barcode @ ILLUMINA_ADAPTER_1"

section \<open>Shearing\<close>

text \<open>
  \<^verbatim>\<open>int(a / b)\<close> on integers: the quotient truncated towards zero; a zero divisor raises and
  is handled by the caller. The lengths of this program are far below \<open>2 ^ 53\<close>, where
  the float quotient has the same integer part as the exact one.
\<close>

definition int_quotient :: "int \<Rightarrow> int \<Rightarrow> int" where
  "int_quotient a b = (if (a < 0) = (b < 0) then \<bar>a\<bar> div \<bar>b\<bar> else - (\<bar>a\<bar> div \<bar>b\<bar>))"

text \<open>
  \<^verbatim>\<open>np.linspace(0, stop, num).astype(int)\<close>: the points \<open>i * stop / (num - 1)\<close> for
  \<open>i < num\<close>, truncated to integers, the last one being \<open>stop\<close> itself when \<open>num > 1\<close>. The
  points are taken in exact arithmetic; the float rounding of the library can move an
  inner point by one, and keeps the first point, the last point and the order.
\<close>

definition linspace_int :: "int \<Rightarrow> nat \<Rightarrow> int list" where
  "linspace_int stop num =
     map (\<lambda>i. if 1 < num \<and> Suc i = num then stop
              else int_quotient (int i * stop) (int num - 1)) [0..<num]"

text \<open>The inner loop: one slice per breakpoint, \<^verbatim>\<open>idx\<close> moving to the breakpoint.\<close>

fun shear_bits :: "string \<Rightarrow> int \<Rightarrow> int list \<Rightarrow> string list \<Rightarrow> string list" where
  "shear_bits fragment idx [] sheared_fragments = sheared_fragments"
| "shear_bits fragment idx (endpos # ends) sheared_fragments =
     shear_bits fragment endpos ends (sheared_fragments @ [slice fragment idx endpos])"

text \<open>
  The breakpoints of one fragment, and the outer loop; \<open>target_size\<close> is the
  parameter \<^verbatim>\<open>size\<close> of the source.
\<close>

definition nfrags_of :: "string \<Rightarrow> int \<Rightarrow> int" where
  "nfrags_of fragment target_size = max 2 (int_quotient (int (length fragment)) target_size)"

definition splits_of :: "string \<Rightarrow> int \<Rightarrow> int list" where
  "splits_of fragment target_size =
     linspace_int (int (length fragment)) (nat (nfrags_of fragment target_size))"

fun shear_loop :: "string list \<Rightarrow> int \<Rightarrow> string list \<Rightarrow> error + string list" where
  "shear_loop [] target_size sheared_fragments = Inr sheared_fragments"
| "shear_loop (fragment # rest) target_size sheared_fragments =
     (if target_size = 0 then Inl ZeroDivisionError
      else shear_loop rest target_size
             (shear_bits fragment 0 (slice_from (splits_of fragment target_size) 1) sheared_fragments))"

definition shear_DNA_to_size_select :: "string list \<Rightarrow> int \<Rightarrow> error + string list" where
  "shear_DNA_to_size_select fragments target_size = shear_loop fragments target_size []"

text \<open>The pieces one fragment contributes: the inner loop, started on an empty list.\<close>

definition fragbits :: "string \<Rightarrow> int \<Rightarrow> string list" where
  "fragbits fragment target_size =
     shear_bits fragment 0 (slice_from (splits_of fragment target_size) 1) []"

section \<open>End repair and ligation of the second adapter\<close>

definition poly_A :: string where
  "poly_A = ''AAAAAAAAAAAAAA''"

text \<open>
  \<^verbatim>\<open>end_repair_and_adapter_ligation(fragments)\<close>: \<^verbatim>\<open>frag[:33]\<close> is tested first, and
  \<^verbatim>\<open>frag[-33:]\<close> is then tested on the fragment as the first step left it.
\<close>

fun repair_loop :: "string list \<Rightarrow> string list \<Rightarrow> string list" where
  "repair_loop [] ligated_fragments = ligated_fragments"
| "repair_loop (frag # rest) ligated_fragments =
     (let frag1 = (if slice_to frag 33 \<noteq> rev (complement ILLUMINA_ADAPTER_1)
                   then rev (complement ILLUMINA_ADAPTER_2) @ complement poly_A @ frag
                   else frag);
          frag2 = (if slice_from frag1 (- 33) \<noteq> ILLUMINA_ADAPTER_1
                   then frag1 @ poly_A @ ILLUMINA_ADAPTER_2
                   else frag1)
      in repair_loop rest (ligated_fragments @ [frag2]))"

definition end_repair_and_adapter_ligation :: "string list \<Rightarrow> string list" where
  "end_repair_and_adapter_ligation fragments = repair_loop fragments []"

section \<open>Selective amplification\<close>

text \<open>
  \<^verbatim>\<open>PCR(fragments)\<close>. The body of the loop: two nested tests on the fragment, one after
  the other; they are not the alternatives of one conditional.
\<close>

definition PCR_body :: "string list \<Rightarrow> string \<Rightarrow> string list" where
  "PCR_body library fragment =
     (let library1 =
            (if slice_to fragment 33 = rev (complement ILLUMINA_ADAPTER_1)
             then (if slice_from fragment (- 33) = ILLUMINA_ADAPTER_2
                   then library @ [fragment] else library)
             else library);
          library2 =
            (if slice_to fragment 33 = rev (complement ILLUMINA_ADAPTER_2)
             then (if slice_from fragment (- 33) = ILLUMINA_ADAPTER_1
                   then library1 @ [rev (complement fragment)] else library1)
             else library1)
      in library2)"

fun PCR_loop :: "string list \<Rightarrow> string list \<Rightarrow> string list" where
  "PCR_loop [] library = library"
| "PCR_loop (fragment # rest) library = PCR_loop rest (PCR_body library fragment)"

definition PCR :: "string list \<Rightarrow> string list" where
  "PCR fragments = PCR_loop fragments []"

section \<open>Properties of the complement transform\<close>

lemma upper_char_values:
  "upper_char CHR ''a'' = CHR ''A''" "upper_char CHR ''c'' = CHR ''C''"
  "upper_char CHR ''g'' = CHR ''G''" "upper_char CHR ''t'' = CHR ''T''"
  "upper_char CHR ''A'' = CHR ''A''" "upper_char CHR ''C'' = CHR ''C''"
  "upper_char CHR ''G'' = CHR ''G''" "upper_char CHR ''T'' = CHR ''T''"
  by code_simp+

lemma complement_length: "length (complement s) = length s"
  by (simp add: complement_def upper_def replace_def)

lemma complement_append: "complement (xs @ ys) = complement xs @ complement ys"
  by (simp add: complement_def upper_def replace_def)

lemma complement_dna_map: "dna s \<Longrightarrow> complement s = map base_pair s"
  by (induction s) (auto simp: dna_def complement_def upper_def replace_def upper_char_values)

lemma complement_dna_closed: "dna s \<Longrightarrow> dna (complement s)"
  by (induction s) (auto simp: dna_def complement_def upper_def replace_def upper_char_values)

text \<open>
  Claim C7. On every sequence over A, C, G, T the complement is an involution, keeps the
  length, and is the symbol-by-symbol substitution by the pairing A-T, C-G in the
  original order.
\<close>

theorem complement_involution:
  assumes "dna s"
  shows "complement (complement s) = s \<and> length (complement s) = length s
         \<and> complement s = map base_pair s \<and> dna (complement s)"
proof -
  have m: "complement s = map base_pair s" using assms by (rule complement_dna_map)
  have d: "dna (complement s)" using assms by (rule complement_dna_closed)
  have "complement (complement s) = map base_pair (map base_pair s)"
    using complement_dna_map [OF d] m by simp
  also have "\<dots> = s" using assms by (induction s) (auto simp: dna_def)
  finally have "complement (complement s) = s" .
  then show ?thesis using m d complement_length by simp
qed

theorem complement_involution_witness:
  "dna ''GATTACA'' \<and> complement (complement ''GATTACA'') = ''GATTACA''
   \<and> length (complement ''GATTACA'') = length ''GATTACA''
   \<and> complement ''GATTACA'' = map base_pair ''GATTACA''"
proof -
  have d: "dna ''GATTACA''" by (simp add: dna_def)
  from complement_involution [OF d] d show ?thesis by blast
qed

section \<open>Properties of the restriction digest\<close>

lemma split_scan_nonempty: "split_scan sep cur s \<noteq> []"
  by (induction sep cur s rule: split_scan.induct) auto

lemma split_scan_length:
  "length (split_scan sep cur s) = count_matches sep s + 1"
  by (induction sep cur s rule: split_scan.induct) auto

lemma prefix_drop_Cons:
  assumes "sep \<noteq> []" "prefix sep (c # cs)"
  shows "sep @ drop (length sep - 1) cs = c # cs"
proof -
  from assms obtain r where r: "c # cs = sep @ r" by (auto simp: prefix_def)
  with assms(1) obtain t where t: "sep = c # t" by (cases sep) auto
  from r t have "cs = t @ r" by simp
  with t r show ?thesis by simp
qed

lemma join_Cons: "ps \<noteq> [] \<Longrightarrow> join sep (p # ps) = p @ sep @ join sep ps"
  by (cases ps) auto

lemma split_scan_join: "join sep (split_scan sep cur s) = cur @ s"
proof (induction sep cur s rule: split_scan.induct)
  case (1 sep cur)
  then show ?case by simp
next
  case (2 sep cur c cs)
  show ?case
  proof (cases "sep \<noteq> [] \<and> prefix sep (c # cs)")
    case True
    then have "join sep (split_scan sep cur (c # cs))
        = cur @ sep @ join sep (split_scan sep [] (drop (length sep - 1) cs))"
      by (simp add: join_Cons split_scan_nonempty)
    also have "\<dots> = cur @ sep @ drop (length sep - 1) cs" using 2(1) True by simp
    also have "\<dots> = cur @ c # cs" using True prefix_drop_Cons [of sep c cs] by simp
    finally show ?thesis .
  next
    case False
    then show ?thesis using 2(2) by auto
  qed
qed

lemma split_scan_absent: "\<not> sublist sep s \<Longrightarrow> split_scan sep cur s = [cur @ s]"
  by (induction sep cur s rule: split_scan.induct) (auto simp: sublist_Cons_right)

lemma count_matches_zero:
  "sep \<noteq> [] \<Longrightarrow> count_matches sep s = 0 \<longleftrightarrow> \<not> sublist sep s"
  by (induction sep s rule: count_matches.induct) (auto simp: sublist_Cons_right)


lemma restriction_digest_Inr:
  "recognition \<noteq> [] \<Longrightarrow>
   restriction_digest sequence recognition cutpos =
     Inr (map (\<lambda>i. slice_from recognition cutpos @ i @ slice_to recognition cutpos)
            (split_scan recognition [] sequence))"
  by (simp add: restriction_digest_def split_def)

text \<open>
  Claim C2, amended. For every scaffold and every non-empty recognition motif, whatever
  the cut offset, the digest returns exactly one fragment more than the motif has
  non-overlapping occurrences in the scaffold; the count is zero exactly when the motif
  does not occur, and then the result is the single fragment made of the scaffold with
  the two overhang stubs.
\<close>

theorem restriction_digest_fragment_count:
  assumes "recognition \<noteq> []"
  shows "\<exists>fragments. restriction_digest sequence recognition cutpos = Inr fragments
           \<and> length fragments = count_matches recognition sequence + 1
           \<and> (count_matches recognition sequence = 0 \<longleftrightarrow> \<not> sublist recognition sequence)
           \<and> (\<not> sublist recognition sequence \<longrightarrow>
                fragments = [slice_from recognition cutpos @ sequence @ slice_to recognition cutpos])"
  using assms
  by (simp add: restriction_digest_Inr split_scan_length count_matches_zero split_scan_absent)

theorem restriction_digest_fragment_count_witness:
  "''CTGCAG'' \<noteq> []
   \<and> restriction_digest ''AACTGCAGAACTGCAGAA'' ''CTGCAG'' 5 = Inr [''GAACTGCA'', ''GAACTGCA'', ''GAACTGCA'']
   \<and> count_matches ''CTGCAG'' ''AACTGCAGAACTGCAGAA'' + 1 = 3
   \<and> \<not> sublist ''CTGCAG'' ''ACGT''
   \<and> restriction_digest ''ACGT'' ''CTGCAG'' 5 = Inr [''GACGTCTGCA'']"
proof -
  have h: "''CTGCAG'' \<noteq> []" by simp
  have a: "\<not> sublist ''CTGCAG'' ''ACGT''" by code_simp
  have s: "slice_from ''CTGCAG'' 5 = ''G''" "slice_to ''CTGCAG'' 5 = ''CTGCA''" by code_simp+
  have c: "count_matches ''CTGCAG'' ''AACTGCAGAACTGCAGAA'' + 1 = 3" by code_simp
  have d: "restriction_digest ''AACTGCAGAACTGCAGAA'' ''CTGCAG'' 5
            = Inr [''GAACTGCA'', ''GAACTGCA'', ''GAACTGCA'']" by code_simp
  from restriction_digest_fragment_count [OF h, of "''ACGT''" 5] a s
  have "restriction_digest ''ACGT'' ''CTGCAG'' 5 = Inr [''GACGTCTGCA'']" by auto
  with h a c d show ?thesis by blast
qed

text \<open>
  The claim as stated covers every recognition site; on the empty motif the split raises
  and the digest returns no fragments at all.
\<close>

theorem restriction_digest_empty_motif_counterexample:
  "restriction_digest ''ACGT'' [] 0 = Inl ValueError"
  by (simp add: restriction_digest_def split_def)

text \<open>
  Claim C8, amended. The digest does not check the cut offset: for a non-empty motif it
  returns its fragments for every integer offset. An offset above the motif length puts
  nothing in front of and the whole motif behind every piece; an offset below minus the
  length does the opposite; any other negative offset counts from the end of the motif.
\<close>

theorem restriction_digest_cut_unchecked:
  assumes "recognition \<noteq> []"
  shows "restriction_digest sequence recognition cutpos =
           Inr (map (\<lambda>i. slice_from recognition cutpos @ i @ slice_to recognition cutpos)
                  (split_scan recognition [] sequence))
         \<and> (int (length recognition) < cutpos \<longrightarrow>
              slice_from recognition cutpos = [] \<and> slice_to recognition cutpos = recognition)
         \<and> (cutpos < - int (length recognition) \<longrightarrow>
              slice_from recognition cutpos = recognition \<and> slice_to recognition cutpos = [])
         \<and> (cutpos < 0 \<and> - int (length recognition) \<le> cutpos \<longrightarrow>
              slice_from recognition cutpos = slice_from recognition (int (length recognition) + cutpos)
              \<and> slice_to recognition cutpos = slice_to recognition (int (length recognition) + cutpos))"
  using assms
  by (auto simp add: restriction_digest_Inr slice_from_def slice_to_def slice_index_def max_def)

theorem restriction_digest_cut_unchecked_witness:
  "''CTGCAG'' \<noteq> [] \<and> int (length ''CTGCAG'') < 7
   \<and> restriction_digest ''AACTGCAGAA'' ''CTGCAG'' 7 = Inr [''AACTGCAG'', ''AACTGCAG'']"
proof -
  have h: "''CTGCAG'' \<noteq> []" by simp
  have l: "int (length ''CTGCAG'') < 7" by simp
  have p: "split_scan ''CTGCAG'' [] ''AACTGCAGAA'' = [''AA'', ''AA'']" by code_simp
  from restriction_digest_cut_unchecked [OF h, of "''AACTGCAGAA''" 7] l p
  have "restriction_digest ''AACTGCAGAA'' ''CTGCAG'' 7 = Inr [''AACTGCAG'', ''AACTGCAG'']"
    by simp
  with h l show ?thesis by blast
qed

text \<open>
  Offsets 7 and -9 are outside the range of the six-symbol motif, and the digest returns
  fragments for both.
\<close>

theorem restriction_digest_cut_counterexample:
  "restriction_digest ''AA'' ''CTGCAG'' 7 = Inr [''AACTGCAG'']
   \<and> restriction_digest ''AA'' ''CTGCAG'' (- 9) = Inr [''CTGCAGAA'']"
  by code_simp

section \<open>Properties of the ligation\<close>

lemma ligate_loop_map:
  "ligate_loop fragments recognition cutpos barcode ligated =
     ligated @ map (\<lambda>fragment. rev (complement ILLUMINA_ADAPTER_1) @ rev (complement barcode)
            @ slice recognition (- cutpos) (- (int (length recognition) - cutpos))
            @ fragment @ barcode @ ILLUMINA_ADAPTER_1) fragments"
  by (induction fragments arbitrary: ligated) (simp_all add: Let_def)

lemma slice_inner:
  assumes "0 < cutpos" "cutpos < int (length recognition)"
  shows "slice recognition (- cutpos) (- (int (length recognition) - cutpos))
         = drop (length recognition - nat cutpos) (take (nat cutpos) recognition)"
  using assms by (simp add: slice_def slice_index_def nat_diff_distrib max_def)

lemma adapter1_length: "length ILLUMINA_ADAPTER_1 = 33"
  by (simp add: ILLUMINA_ADAPTER_1_def)

lemma revcomp_adapter1: "rev (complement ILLUMINA_ADAPTER_1) = ''TGACTGGAGTTCAGACGTGTGCTCTTCCGATCT''"
  by code_simp

lemma revcomp_adapter2: "rev (complement ILLUMINA_ADAPTER_2) = ''ACACTCTTTCCCTACACGACGCTCTTCCGATCT''"
  by code_simp

lemma slice_inner_length:
  assumes "0 < cutpos" "cutpos < int (length recognition)"
  shows "length (slice recognition (- cutpos) (- (int (length recognition) - cutpos)))
         = nat (2 * cutpos - int (length recognition))"
  unfolding slice_inner [OF assms] using assms by simp

text \<open>
  Claim C1, amended. Every molecule the ligation builds is, from left to right, the reverse
  complement of Adapter I, the reverse complement of the barcode, the slice
  \<^verbatim>\<open>recognition[-cut:-(len(recognition) - cut)]\<close> of the motif as it stands (neither reversed
  nor complemented; for an offset strictly inside the motif these are the symbols from
  position \<open>len - cut\<close> up to position \<open>cut\<close>), the fragment, the barcode and
  Adapter I. The first two parts together are the reverse complement of the last two.
\<close>

theorem ligate_layout:
  "ligate_barcoded_adapters fragments recognition cutpos barcode =
     map (\<lambda>fragment. rev (complement ILLUMINA_ADAPTER_1) @ rev (complement barcode)
            @ slice recognition (- cutpos) (- (int (length recognition) - cutpos))
            @ fragment @ barcode @ ILLUMINA_ADAPTER_1) fragments
   \<and> (0 < cutpos \<and> cutpos < int (length recognition) \<longrightarrow>
        slice recognition (- cutpos) (- (int (length recognition) - cutpos))
          = drop (length recognition - nat cutpos) (take (nat cutpos) recognition))
   \<and> rev (complement ILLUMINA_ADAPTER_1) @ rev (complement barcode)
        = rev (complement (barcode @ ILLUMINA_ADAPTER_1))"
proof -
  have "rev (complement ILLUMINA_ADAPTER_1) @ rev (complement barcode)
        = rev (complement (barcode @ ILLUMINA_ADAPTER_1))"
    by (simp add: complement_append)
  then show ?thesis
    using slice_inner [of cutpos recognition]
    unfolding ligate_barcoded_adapters_def ligate_loop_map by simp
qed

theorem ligate_layout_witness:
  "(0::int) < 5 \<and> 5 < int (length ''CTGCAG'')
   \<and> ligate_barcoded_adapters [''GAACTGCA''] ''CTGCAG'' 5 ''AATTCC''
       = [''TGACTGGAGTTCAGACGTGTGCTCTTCCGATCT'' @ ''GGAATT'' @ ''TGCA'' @ ''GAACTGCA'' @ ''AATTCC''
          @ ''AGATCGGAAGAGCACACGTCTGAACTCCAGTCA'']"
proof -
  have h: "(0::int) < 5 \<and> 5 < int (length ''CTGCAG'')" by simp
  have b: "rev (complement ''AATTCC'') = ''GGAATT''" by code_simp
  have d: "drop (length ''CTGCAG'' - nat 5) (take (nat 5) ''CTGCAG'') = ''TGCA''" by simp
  from ligate_layout [of "[''GAACTGCA'']" "''CTGCAG''" 5 "''AATTCC''"] h
  have "ligate_barcoded_adapters [''GAACTGCA''] ''CTGCAG'' 5 ''AATTCC''
       = [rev (complement ILLUMINA_ADAPTER_1) @ rev (complement ''AATTCC'')
            @ drop (length ''CTGCAG'' - nat 5) (take (nat 5) ''CTGCAG'')
            @ ''GAACTGCA'' @ ''AATTCC'' @ ILLUMINA_ADAPTER_1]"
    by simp
  then have "ligate_barcoded_adapters [''GAACTGCA''] ''CTGCAG'' 5 ''AATTCC''
       = [''TGACTGGAGTTCAGACGTGTGCTCTTCCGATCT'' @ ''GGAATT'' @ ''TGCA'' @ ''GAACTGCA'' @ ''AATTCC''
          @ ''AGATCGGAAGAGCACACGTCTGAACTCCAGTCA'']"
    unfolding revcomp_adapter1 b d unfolding ILLUMINA_ADAPTER_1_def .
  with h show ?thesis by blast
qed

text \<open>
  With the motif CTGCAG cut at 5 the third part is TGCA. It is not the reverse complement
  of a suffix of the motif, whatever length from 0 to 6 the overhang is given: one symbol
  (motif length minus cut), five symbols (the cut), or any other.
\<close>

theorem ligate_overhang_counterexample:
  "ligate_barcoded_adapters [''GAACTGCA''] ''CTGCAG'' 5 ''AATTCC''
     \<noteq> [claimed_molecule ''CTGCAG'' 0 ''AATTCC'' ''GAACTGCA'']
   \<and> ligate_barcoded_adapters [''GAACTGCA''] ''CTGCAG'' 5 ''AATTCC''
     \<noteq> [claimed_molecule ''CTGCAG'' 1 ''AATTCC'' ''GAACTGCA'']
   \<and> ligate_barcoded_adapters [''GAACTGCA''] ''CTGCAG'' 5 ''AATTCC''
     \<noteq> [claimed_molecule ''CTGCAG'' 2 ''AATTCC'' ''GAACTGCA'']
   \<and> ligate_barcoded_adapters [''GAACTGCA''] ''CTGCAG'' 5 ''AATTCC''
     \<noteq> [claimed_molecule ''CTGCAG'' 3 ''AATTCC'' ''GAACTGCA'']
   \<and> ligate_barcoded_adapters [''GAACTGCA''] ''CTGCAG'' 5 ''AATTCC''
     \<noteq> [claimed_molecule ''CTGCAG'' 4 ''AATTCC'' ''GAACTGCA'']
   \<and> ligate_barcoded_adapters [''GAACTGCA''] ''CTGCAG'' 5 ''AATTCC''
     \<noteq> [claimed_molecule ''CTGCAG'' 5 ''AATTCC'' ''GAACTGCA'']
   \<and> ligate_barcoded_adapters [''GAACTGCA''] ''CTGCAG'' 5 ''AATTCC''
     \<noteq> [claimed_molecule ''CTGCAG'' 6 ''AATTCC'' ''GAACTGCA'']"
  by code_simp

text \<open>
  Claim C3, amended. For a barcode over A, C, G, T, a fragment given to the ligation grows by
  twice the length of Adapter I (33) plus the barcode, plus the length of the motif slice,
  which is \<open>2 * cut - len\<close> (or zero) for an offset strictly inside the motif. Counted
  from the piece of the scaffold before the digest put its stubs on, and for
  \<open>len \<le> 2 * cut\<close>, the growth of digest and ligation together is
  \<open>2 * (33 + barcode length + cut)\<close>.
\<close>

theorem ligate_length:
  assumes "dna barcode"
  shows "map length (ligate_barcoded_adapters fragments recognition cutpos barcode) =
           map (\<lambda>fragment. length fragment + 2 * (33 + length barcode)
                  + length (slice recognition (- cutpos) (- (int (length recognition) - cutpos))))
               fragments
         \<and> (0 < cutpos \<and> cutpos < int (length recognition) \<longrightarrow>
              length (slice recognition (- cutpos) (- (int (length recognition) - cutpos)))
                = nat (2 * cutpos - int (length recognition)))
         \<and> (recognition \<noteq> [] \<and> 0 < cutpos \<and> cutpos < int (length recognition)
              \<and> int (length recognition) \<le> 2 * cutpos \<longrightarrow>
              (\<exists>digested. restriction_digest sequence recognition cutpos = Inr digested
                 \<and> map length (ligate_barcoded_adapters digested recognition cutpos barcode) =
                     map (\<lambda>piece. length piece + 2 * (33 + length barcode + nat cutpos))
                       (split_scan recognition [] sequence)))"
proof -
  have A: "map length (ligate_barcoded_adapters fragments recognition cutpos barcode) =
           map (\<lambda>fragment. length fragment + 2 * (33 + length barcode)
                  + length (slice recognition (- cutpos) (- (int (length recognition) - cutpos))))
               fragments" for fragments
    by (simp add: ligate_barcoded_adapters_def ligate_loop_map complement_length adapter1_length)
  have B: "length (slice recognition (- cutpos) (- (int (length recognition) - cutpos)))
                = nat (2 * cutpos - int (length recognition))"
    if "0 < cutpos" "cutpos < int (length recognition)"
    using that by (rule slice_inner_length)
  have C: "\<exists>digested. restriction_digest sequence recognition cutpos = Inr digested
                 \<and> map length (ligate_barcoded_adapters digested recognition cutpos barcode) =
                     map (\<lambda>piece. length piece + 2 * (33 + length barcode + nat cutpos))
                       (split_scan recognition [] sequence)"
    if "recognition \<noteq> []" "0 < cutpos" "cutpos < int (length recognition)"
       "int (length recognition) \<le> 2 * cutpos"
  proof -
    have l: "length (slice_from recognition cutpos) + length (slice_to recognition cutpos)
             + nat (2 * cutpos - int (length recognition)) = 2 * nat cutpos"
      using that by (simp add: slice_from_def slice_to_def slice_index_def)
    show ?thesis
      using that l unfolding restriction_digest_Inr [OF that(1)] A B [OF that(2,3)]
      by (simp add: comp_def)
  qed
  from A B C show ?thesis by blast
qed

theorem ligate_length_witness:
  "dna ''AATTCC'' \<and> ''CTGCAG'' \<noteq> [] \<and> (0::int) < 5 \<and> 5 < int (length ''CTGCAG'')
   \<and> int (length ''CTGCAG'') \<le> 2 * 5
   \<and> map length (ligate_barcoded_adapters [''GAACTGCA''] ''CTGCAG'' 5 ''AATTCC'') = [90]
   \<and> (\<exists>digested. restriction_digest ''AACTGCAGACGT'' ''CTGCAG'' 5 = Inr digested
        \<and> map length (ligate_barcoded_adapters digested ''CTGCAG'' 5 ''AATTCC'') = [90, 92])"
proof -
  have d: "dna ''AATTCC''" by (simp add: dna_def)
  have h: "''CTGCAG'' \<noteq> [] \<and> (0::int) < 5 \<and> 5 < int (length ''CTGCAG'')
           \<and> int (length ''CTGCAG'') \<le> 2 * 5" by simp
  have p: "split_scan ''CTGCAG'' [] ''AACTGCAGACGT'' = [''AA'', ''ACGT'']" by code_simp
  note t = ligate_length [OF d, of "[''GAACTGCA'']" "''CTGCAG''" 5 "''AACTGCAGACGT''"]
  from t h have "map length (ligate_barcoded_adapters [''GAACTGCA''] ''CTGCAG'' 5 ''AATTCC'') = [90]"
    by simp
  moreover from t h p
  have "\<exists>digested. restriction_digest ''AACTGCAGACGT'' ''CTGCAG'' 5 = Inr digested
        \<and> map length (ligate_barcoded_adapters digested ''CTGCAG'' 5 ''AATTCC'') = [90, 92]"
    by simp
  ultimately show ?thesis using d h by blast
qed

text \<open>
  A fragment of 100 symbols given to the ligation with the motif CTGCAG cut at 5 and the
  barcode AATTCC comes out with 182 symbols, not 188.
\<close>

theorem ligate_length_counterexample:
  "length (''G'' @ replicate 94 CHR ''A'' @ ''CTGCA'') = 100
   \<and> length ILLUMINA_ADAPTER_1 = 33 \<and> length ''AATTCC'' = 6 \<and> length ''CTGCA'' = 5
   \<and> map length (ligate_barcoded_adapters [''G'' @ replicate 94 CHR ''A'' @ ''CTGCA'']
                   ''CTGCAG'' 5 ''AATTCC'') = [182]
   \<and> map length (ligate_barcoded_adapters [''G'' @ replicate 94 CHR ''A'' @ ''CTGCA'']
                   ''CTGCAG'' 5 ''AATTCC'') \<noteq> [100 + 2 * (33 + 6 + 5)]"
  by code_simp

section \<open>Properties of the shearing\<close>

lemma slice_from_one: "slice_from xs 1 = tl xs"
  by (cases xs) (simp_all add: slice_from_def slice_index_def)






lemma shear_bits_length: "length (shear_bits fragment idx ends acc) = length acc + length ends"
  by (induction ends arbitrary: idx acc) simp_all

lemma int_quotient_nonneg: "0 \<le> a \<Longrightarrow> 0 < b \<Longrightarrow> int_quotient a b = a div b"
  by (simp add: int_quotient_def)

lemma nfrags_of_pos:
  "0 < target_size \<Longrightarrow> nfrags_of fragment target_size = max 2 (int (length fragment) div target_size)"
  by (simp add: nfrags_of_def int_quotient_nonneg)


lemma linspace_int_length: "length (linspace_int stop num) = num"
  by (simp add: linspace_int_def)








lemma fragbits_length:
  "length (fragbits fragment target_size) = nat (nfrags_of fragment target_size) - 1"
  by (simp add: fragbits_def shear_bits_length slice_from_one splits_of_def linspace_int_length)




text \<open>
  Claim C5. The number \<^verbatim>\<open>nfrags\<close> is the maximum of 2 and the quotient of length and target
  size, and it is used as the number of breakpoints, which makes one piece less. A fragment
  of two symbols sheared at size 1 has \<^verbatim>\<open>nfrags = 2\<close> and comes back as one piece; a
  fragment of four symbols has \<^verbatim>\<open>nfrags = 4\<close> and gives three pieces.
\<close>

theorem shear_piece_count_evaluated:
  "nfrags_of ''AC'' 1 = 2 \<and> shear_DNA_to_size_select [''AC''] 1 = Inr [''AC'']
   \<and> nfrags_of ''ACGT'' 1 = 4 \<and> shear_DNA_to_size_select [''ACGT''] 1 = Inr [''A'', ''C'', ''GT'']"
  by code_simp

section \<open>Properties of the amplification\<close>

lemma revcomp_adapters_differ:
  "rev (complement ILLUMINA_ADAPTER_1) \<noteq> rev (complement ILLUMINA_ADAPTER_2)"
  unfolding revcomp_adapter1 revcomp_adapter2 by simp

lemma adapters_differ: "ILLUMINA_ADAPTER_1 \<noteq> ILLUMINA_ADAPTER_2"
  by (simp add: ILLUMINA_ADAPTER_1_def ILLUMINA_ADAPTER_2_def)

lemma PCR_body_eq:
  "PCR_body library fragment =
     library @
     (if slice_to fragment 33 = rev (complement ILLUMINA_ADAPTER_1)
         \<and> slice_from fragment (- 33) = ILLUMINA_ADAPTER_2
      then [fragment]
      else if slice_to fragment 33 = rev (complement ILLUMINA_ADAPTER_2)
              \<and> slice_from fragment (- 33) = ILLUMINA_ADAPTER_1
           then [rev (complement fragment)]
           else [])"
  using revcomp_adapters_differ by (simp add: PCR_body_def)

lemma PCR_loop_concat:
  "PCR_loop fragments library =
     library @ concat (map (\<lambda>fragment.
       if slice_to fragment 33 = rev (complement ILLUMINA_ADAPTER_1)
          \<and> slice_from fragment (- 33) = ILLUMINA_ADAPTER_2
       then [fragment]
       else if slice_to fragment 33 = rev (complement ILLUMINA_ADAPTER_2)
               \<and> slice_from fragment (- 33) = ILLUMINA_ADAPTER_1
            then [rev (complement fragment)]
            else []) fragments)"
proof (induction fragments arbitrary: library)
  case Nil
  then show ?case by simp
next
  case (Cons f fs)
  show ?case unfolding PCR_loop.simps Cons.IH PCR_body_eq by simp
qed

lemma concat_map_singleton: "(\<forall>x \<in> set xs. K x = [x]) \<Longrightarrow> concat (map K xs) = xs"
  by (induction xs) simp_all

text \<open>
  Claim C6. The amplification keeps, in the order of the input, each fragment whose first 33
  symbols are the reverse complement of Adapter I and whose last 33 symbols are Adapter II,
  as it is, and each fragment whose first 33 symbols are the reverse complement of
  Adapter II and whose last 33 symbols are Adapter I, reverse complemented; it drops every
  other fragment. So it is the identity on a library of fragments of the first kind and
  returns the empty library when every fragment has Adapter I at both ends.
\<close>

theorem PCR_filter:
  "PCR fragments =
     concat (map (\<lambda>fragment.
       if slice_to fragment 33 = rev (complement ILLUMINA_ADAPTER_1)
          \<and> slice_from fragment (- 33) = ILLUMINA_ADAPTER_2
       then [fragment]
       else if slice_to fragment 33 = rev (complement ILLUMINA_ADAPTER_2)
               \<and> slice_from fragment (- 33) = ILLUMINA_ADAPTER_1
            then [rev (complement fragment)]
            else []) fragments)
   \<and> ((\<forall>fragment \<in> set fragments.
          slice_to fragment 33 = rev (complement ILLUMINA_ADAPTER_1)
          \<and> slice_from fragment (- 33) = ILLUMINA_ADAPTER_2) \<longrightarrow> PCR fragments = fragments)
   \<and> ((\<forall>fragment \<in> set fragments.
          slice_to fragment 33 = rev (complement ILLUMINA_ADAPTER_1)
          \<and> slice_from fragment (- 33) = ILLUMINA_ADAPTER_1) \<longrightarrow> PCR fragments = [])"
proof (intro conjI impI)
  show "PCR fragments =
     concat (map (\<lambda>fragment.
       if slice_to fragment 33 = rev (complement ILLUMINA_ADAPTER_1)
          \<and> slice_from fragment (- 33) = ILLUMINA_ADAPTER_2
       then [fragment]
       else if slice_to fragment 33 = rev (complement ILLUMINA_ADAPTER_2)
               \<and> slice_from fragment (- 33) = ILLUMINA_ADAPTER_1
            then [rev (complement fragment)]
            else []) fragments)"
    by (simp add: PCR_def PCR_loop_concat)
next
  assume a: "\<forall>fragment \<in> set fragments.
          slice_to fragment 33 = rev (complement ILLUMINA_ADAPTER_1)
          \<and> slice_from fragment (- 33) = ILLUMINA_ADAPTER_2"
  show "PCR fragments = fragments"
    unfolding PCR_def PCR_loop_concat append_Nil
    by (rule concat_map_singleton) (use a in simp)
next
  assume a: "\<forall>fragment \<in> set fragments.
          slice_to fragment 33 = rev (complement ILLUMINA_ADAPTER_1)
          \<and> slice_from fragment (- 33) = ILLUMINA_ADAPTER_1"
  show "PCR fragments = []"
    unfolding PCR_def PCR_loop_concat
    using a adapters_differ revcomp_adapters_differ by auto
qed

theorem PCR_filter_witness:
  "slice_to (''TGACTGGAGTTCAGACGTGTGCTCTTCCGATCT'' @ ''ACGT'' @ ''AGATCGGAAGAGCGTCGTGTAGGGAAAGAGTGT'') 33
     = rev (complement ILLUMINA_ADAPTER_1)
   \<and> slice_from (''TGACTGGAGTTCAGACGTGTGCTCTTCCGATCT'' @ ''ACGT'' @ ''AGATCGGAAGAGCGTCGTGTAGGGAAAGAGTGT'') (- 33)
     = ILLUMINA_ADAPTER_2
   \<and> PCR [''TGACTGGAGTTCAGACGTGTGCTCTTCCGATCT'' @ ''ACGT'' @ ''AGATCGGAAGAGCGTCGTGTAGGGAAAGAGTGT'']
       = [''TGACTGGAGTTCAGACGTGTGCTCTTCCGATCT'' @ ''ACGT'' @ ''AGATCGGAAGAGCGTCGTGTAGGGAAAGAGTGT'']
   \<and> slice_to (''TGACTGGAGTTCAGACGTGTGCTCTTCCGATCT'' @ ''ACGT'' @ ''AGATCGGAAGAGCACACGTCTGAACTCCAGTCA'') 33
     = rev (complement ILLUMINA_ADAPTER_1)
   \<and> slice_from (''TGACTGGAGTTCAGACGTGTGCTCTTCCGATCT'' @ ''ACGT'' @ ''AGATCGGAAGAGCACACGTCTGAACTCCAGTCA'') (- 33)
     = ILLUMINA_ADAPTER_1
   \<and> PCR [''TGACTGGAGTTCAGACGTGTGCTCTTCCGATCT'' @ ''ACGT'' @ ''AGATCGGAAGAGCACACGTCTGAACTCCAGTCA''] = []"
proof -
  have p: "slice_to (''TGACTGGAGTTCAGACGTGTGCTCTTCCGATCT'' @ ''ACGT'' @ ''AGATCGGAAGAGCGTCGTGTAGGGAAAGAGTGT'') 33
     = rev (complement ILLUMINA_ADAPTER_1)
   \<and> slice_from (''TGACTGGAGTTCAGACGTGTGCTCTTCCGATCT'' @ ''ACGT'' @ ''AGATCGGAAGAGCGTCGTGTAGGGAAAGAGTGT'') (- 33)
     = ILLUMINA_ADAPTER_2"
    by code_simp
  have q: "slice_to (''TGACTGGAGTTCAGACGTGTGCTCTTCCGATCT'' @ ''ACGT'' @ ''AGATCGGAAGAGCACACGTCTGAACTCCAGTCA'') 33
     = rev (complement ILLUMINA_ADAPTER_1)
   \<and> slice_from (''TGACTGGAGTTCAGACGTGTGCTCTTCCGATCT'' @ ''ACGT'' @ ''AGATCGGAAGAGCACACGTCTGAACTCCAGTCA'') (- 33)
     = ILLUMINA_ADAPTER_1"
    by code_simp
  have p': "\<forall>fragment \<in> set [''TGACTGGAGTTCAGACGTGTGCTCTTCCGATCT'' @ ''ACGT'' @ ''AGATCGGAAGAGCGTCGTGTAGGGAAAGAGTGT''].
      slice_to fragment 33 = rev (complement ILLUMINA_ADAPTER_1)
      \<and> slice_from fragment (- 33) = ILLUMINA_ADAPTER_2"
    using p by simp
  have q': "\<forall>fragment \<in> set [''TGACTGGAGTTCAGACGTGTGCTCTTCCGATCT'' @ ''ACGT'' @ ''AGATCGGAAGAGCACACGTCTGAACTCCAGTCA''].
      slice_to fragment 33 = rev (complement ILLUMINA_ADAPTER_1)
      \<and> slice_from fragment (- 33) = ILLUMINA_ADAPTER_1"
    using q by simp
  from PCR_filter [of "[''TGACTGGAGTTCAGACGTGTGCTCTTCCGATCT'' @ ''ACGT'' @ ''AGATCGGAAGAGCGTCGTGTAGGGAAAGAGTGT'']"] p'
  have a: "PCR [''TGACTGGAGTTCAGACGTGTGCTCTTCCGATCT'' @ ''ACGT'' @ ''AGATCGGAAGAGCGTCGTGTAGGGAAAGAGTGT'']
       = [''TGACTGGAGTTCAGACGTGTGCTCTTCCGATCT'' @ ''ACGT'' @ ''AGATCGGAAGAGCGTCGTGTAGGGAAAGAGTGT'']"
    by blast
  from PCR_filter [of "[''TGACTGGAGTTCAGACGTGTGCTCTTCCGATCT'' @ ''ACGT'' @ ''AGATCGGAAGAGCACACGTCTGAACTCCAGTCA'']"] q'
  have b: "PCR [''TGACTGGAGTTCAGACGTGTGCTCTTCCGATCT'' @ ''ACGT'' @ ''AGATCGGAAGAGCACACGTCTGAACTCCAGTCA''] = []"
    by blast
  from p a q b show ?thesis by blast
qed

lemma PCR_reverse_branch_example:
  "PCR [''ACGT'',
        ''ACACTCTTTCCCTACACGACGCTCTTCCGATCT'' @ ''AACG'' @ ''AGATCGGAAGAGCACACGTCTGAACTCCAGTCA'',
        ''TGACTGGAGTTCAGACGTGTGCTCTTCCGATCT'' @ ''ACGT'' @ ''AGATCGGAAGAGCGTCGTGTAGGGAAAGAGTGT'']
   = [''TGACTGGAGTTCAGACGTGTGCTCTTCCGATCT'' @ ''CGTT'' @ ''AGATCGGAAGAGCGTCGTGTAGGGAAAGAGTGT'',
      ''TGACTGGAGTTCAGACGTGTGCTCTTCCGATCT'' @ ''ACGT'' @ ''AGATCGGAAGAGCGTCGTGTAGGGAAAGAGTGT'']"
  by code_simp

text \<open>
  Claim C10. No fragment passes both tests of the amplification, because the reverse
  complements of the two adapters differ; so a fragment adds at most one molecule to the
  library, and the output is never longer than the input.
\<close>

theorem PCR_at_most_one:
  "\<not> ((slice_to fragment 33 = rev (complement ILLUMINA_ADAPTER_1)
        \<and> slice_from fragment (- 33) = ILLUMINA_ADAPTER_2)
       \<and> (slice_to fragment 33 = rev (complement ILLUMINA_ADAPTER_2)
          \<and> slice_from fragment (- 33) = ILLUMINA_ADAPTER_1))
   \<and> rev (complement ILLUMINA_ADAPTER_1) \<noteq> rev (complement ILLUMINA_ADAPTER_2)
   \<and> length (PCR_body library fragment) \<le> Suc (length library)
   \<and> length (PCR [fragment]) \<le> 1
   \<and> length (PCR fragments) \<le> length fragments"
proof -
  have l: "length (PCR_loop fs lib) \<le> length lib + length fs" for fs lib
  proof (induction fs arbitrary: lib)
    case Nil
    then show ?case by simp
  next
    case (Cons f fs)
    have "length (PCR_body lib f) \<le> Suc (length lib)" by (simp add: PCR_body_eq)
    then show ?case using Cons [of "PCR_body lib f"] by simp
  qed
  have "length (PCR_body library fragment) \<le> Suc (length library)" by (simp add: PCR_body_eq)
  moreover have "length (PCR [fragment]) \<le> 1" using l [of "[fragment]" "[]"] by (simp add: PCR_def)
  moreover have "length (PCR fragments) \<le> length fragments" using l [of fragments "[]"] by (simp add: PCR_def)
  ultimately show ?thesis using revcomp_adapters_differ by auto
qed

theorem PCR_at_most_one_witness:
  "length (PCR [''ACGT'',
        ''ACACTCTTTCCCTACACGACGCTCTTCCGATCT'' @ ''AACG'' @ ''AGATCGGAAGAGCACACGTCTGAACTCCAGTCA'',
        ''TGACTGGAGTTCAGACGTGTGCTCTTCCGATCT'' @ ''ACGT'' @ ''AGATCGGAAGAGCGTCGTGTAGGGAAAGAGTGT''])
   \<le> 3
   \<and> length (PCR [''ACACTCTTTCCCTACACGACGCTCTTCCGATCT'' @ ''AACG'' @ ''AGATCGGAAGAGCACACGTCTGAACTCCAGTCA'']) \<le> 1"
  using PCR_at_most_one [of "''ACACTCTTTCCCTACACGACGCTCTTCCGATCT'' @ ''AACG'' @ ''AGATCGGAAGAGCACACGTCTGAACTCCAGTCA''" "[]"
     "[''ACGT'',
        ''ACACTCTTTCCCTACACGACGCTCTTCCGATCT'' @ ''AACG'' @ ''AGATCGGAAGAGCACACGTCTGAACTCCAGTCA'',
        ''TGACTGGAGTTCAGACGTGTGCTCTTCCGATCT'' @ ''ACGT'' @ ''AGATCGGAAGAGCGTCGTGTAGGGAAAGAGTGT'']"]
  by simp

section \<open>Properties of the end repair\<close>

lemma repair_loop_map:
  "repair_loop fragments ligated_fragments =
     ligated_fragments @ map (\<lambda>frag.
       let frag1 = (if slice_to frag 33 \<noteq> rev (complement ILLUMINA_ADAPTER_1)
                    then rev (complement ILLUMINA_ADAPTER_2) @ complement poly_A @ frag
                    else frag)
       in (if slice_from frag1 (- 33) \<noteq> ILLUMINA_ADAPTER_1
           then frag1 @ poly_A @ ILLUMINA_ADAPTER_2
           else frag1)) fragments"
  by (induction fragments arbitrary: ligated_fragments) (simp_all add: Let_def)

text \<open>
  Claim C9. A fragment whose first 33 symbols are the reverse complement of Adapter I and
  whose last 33 symbols are Adapter I comes out of the end repair unchanged, alone or at
  its place inside a library.
\<close>

theorem repair_keeps_adapter1_fragment:
  assumes "slice_to fragment 33 = rev (complement ILLUMINA_ADAPTER_1)"
      and "slice_from fragment (- 33) = ILLUMINA_ADAPTER_1"
  shows "end_repair_and_adapter_ligation [fragment] = [fragment]
         \<and> end_repair_and_adapter_ligation (before @ fragment # after) =
             end_repair_and_adapter_ligation before @ fragment
               # end_repair_and_adapter_ligation after"
  using assms by (simp add: end_repair_and_adapter_ligation_def repair_loop_map)

theorem repair_keeps_adapter1_fragment_witness:
  "slice_to (''TGACTGGAGTTCAGACGTGTGCTCTTCCGATCT'' @ ''ACGT'' @ ''AGATCGGAAGAGCACACGTCTGAACTCCAGTCA'') 33
     = rev (complement ILLUMINA_ADAPTER_1)
   \<and> slice_from (''TGACTGGAGTTCAGACGTGTGCTCTTCCGATCT'' @ ''ACGT'' @ ''AGATCGGAAGAGCACACGTCTGAACTCCAGTCA'') (- 33)
     = ILLUMINA_ADAPTER_1
   \<and> end_repair_and_adapter_ligation
        [''TGACTGGAGTTCAGACGTGTGCTCTTCCGATCT'' @ ''ACGT'' @ ''AGATCGGAAGAGCACACGTCTGAACTCCAGTCA'']
      = [''TGACTGGAGTTCAGACGTGTGCTCTTCCGATCT'' @ ''ACGT'' @ ''AGATCGGAAGAGCACACGTCTGAACTCCAGTCA'']"
proof -
  have p: "slice_to (''TGACTGGAGTTCAGACGTGTGCTCTTCCGATCT'' @ ''ACGT'' @ ''AGATCGGAAGAGCACACGTCTGAACTCCAGTCA'') 33
     = rev (complement ILLUMINA_ADAPTER_1)" by code_simp
  have q: "slice_from (''TGACTGGAGTTCAGACGTGTGCTCTTCCGATCT'' @ ''ACGT'' @ ''AGATCGGAAGAGCACACGTCTGAACTCCAGTCA'') (- 33)
     = ILLUMINA_ADAPTER_1" by code_simp
  from repair_keeps_adapter1_fragment [OF p q] p q show ?thesis by blast
qed

lemma repair_examples:
  "end_repair_and_adapter_ligation [''ACGT'', ''TGACTGGAGTTCAGACGTGTGCTCTTCCGATCT'' @ ''ACGT'']
   = [''ACACTCTTTCCCTACACGACGCTCTTCCGATCT'' @ ''TTTTTTTTTTTTTT'' @ ''ACGT'' @ ''AAAAAAAAAAAAAA''
        @ ''AGATCGGAAGAGCGTCGTGTAGGGAAAGAGTGT'',
      ''TGACTGGAGTTCAGACGTGTGCTCTTCCGATCT'' @ ''ACGT'' @ ''AAAAAAAAAAAAAA''
        @ ''AGATCGGAAGAGCGTCGTGTAGGGAAAGAGTGT'']"
  by code_simp

end
